theory Spec2Isabelle
  imports Complex_Main
begin

section \<open>kinpy.sdf: building a kinematic chain from an SDF model\<close>

text \<open>
  A shallow embedding of \<^verbatim>\<open>src/kinpy/sdf.py\<close>. The module turns the parsed robot
  description (a link map and a joint list) into a tree of frames.

  Conventions of the embedding:
  \<^item> Python floats are modelled as \<^typ>\<open>real\<close>; rounding is not modelled, and no
    statement below depends on it.
  \<^item> The class \<^verbatim>\<open>transform.Transform\<close> lives outside \<^verbatim>\<open>sdf.py\<close>. Its constructor,
    its product and its inverse are taken as parameters (record \<open>transform_ops\<close>), so
    every result holds for any implementation of that class.
  \<^item> The classes of \<^verbatim>\<open>frame\<close> and \<^verbatim>\<open>chain\<close> are plain containers; they are modelled
    as records and datatypes holding the constructor arguments. A constructor argument
    that the source leaves to the class default is \<open>None\<close>.
  \<^item> A Python exception is a value \<open>Inl e\<close> of a sum type.
  \<^item> The recursion of \<^verbatim>\<open>_build_chain_recurse\<close> may run forever; it carries fuel (the
    number of nested calls still allowed), and running out of fuel is \<open>None\<close>.
\<close>

subsection \<open>Input records (the parsed SDF model)\<close>

text \<open>The geometry classes tested by \<^verbatim>\<open>isinstance\<close>; \<open>OtherGeometry\<close> is any object that
  is an instance of none of the four.\<close>

datatype geometry =
    Mesh string
  | Cylinder real real
  | Box "real list"
  | Sphere real
  | OtherGeometry

record sdf_visual =
  v_pose :: "real list option"
  v_geometry :: geometry

record sdf_link =
  l_name :: string
  l_pose :: "real list option"
  l_visuals :: "sdf_visual list"

text \<open>A joint carries its axis vector (\<^verbatim>\<open>j.axis.xyz\<close>), as in the data model of the
  specification; a pose is the array of six numbers the parser reads, position first.\<close>

record sdf_joint =
  j_name :: string
  j_type :: string
  j_parent :: string
  j_child :: string
  j_axis_xyz :: "real list"

record sdf_model =
  model_link_map :: "string \<rightharpoonup> sdf_link"
  model_joints :: "sdf_joint list"

subsection \<open>The transform class, as a parameter\<close>

text \<open>\<open>Transform ops rot pos\<close> is the constructor call \<^verbatim>\<open>Transform(rot=..., pos=...)\<close>, an
  omitted argument being \<open>None\<close>; \<open>tf_mul\<close> is \<^verbatim>\<open>*\<close> and \<open>tf_inverse\<close> is
  \<^verbatim>\<open>.inverse()\<close>. The three operations are total: the constructor is taken to accept
  the rotations and positions cut from a parsed pose.\<close>

record 't transform_ops =
  Transform :: "real list option \<Rightarrow> real list option \<Rightarrow> 't"
  tf_mul :: "'t \<Rightarrow> 't \<Rightarrow> 't"
  tf_inverse :: "'t \<Rightarrow> 't"

text \<open>Modelled from the spec: the class \<^verbatim>\<open>Transform\<close> is not part of \<^verbatim>\<open>sdf.py\<close>; the spec
  says of it that the identity is the default, so the identity transform is the
  constructor called without arguments.\<close>

definition tf_identity :: "'t transform_ops \<Rightarrow> 't" where
  "tf_identity ops = Transform ops None None"

text \<open>\<^verbatim>\<open>np.deg2rad\<close> on a list of angles.\<close>

definition deg2rad :: "real list \<Rightarrow> real list" where
  "deg2rad ds = map (\<lambda>d. d * pi / 180) ds"

subsection \<open>Output values (modules frame and chain)\<close>

datatype g_param =
    ParamFilename string
  | ParamRadiusLength real real
  | ParamSize "real list"
  | ParamRadius real
  | ParamNone

record 't Visual =
  visual_offset :: 't
  geom_type :: "string option"
  geom_param :: g_param

record 't Link =
  link_name :: string
  link_offset :: 't
  visuals :: "'t Visual list"

record 't Joint =
  joint_name :: "string option"
  offset :: 't
  joint_type :: "string option"
  axis :: "real list option"

datatype 't frame =
  Frame (frame_name: string) (joint: "'t Joint") (link: "'t Link") (children: "'t frame list")

datatype 't chain = Chain (chain_root: "'t frame")

subsection \<open>Errors\<close>

text \<open>Python raises \<^verbatim>\<open>KeyError(key)\<close> at each failing dictionary lookup. The model also
  records which lookup of the source failed: the root link (line 90), the parent link
  (line 47), the child link (line 48) or the joint type (line 52). An unbound
  \<^verbatim>\<open>root_link\<close> at line 92 is \<open>UnboundLocalError\<close>.\<close>

datatype lookup_site = RootLink | ParentLink | ChildLink | JointType

datatype error = KeyError lookup_site string | UnboundLocalError

text \<open>How an exception of \<^verbatim>\<open>sdf.py\<close> comes about. The module holds no \<^verbatim>\<open>raise\<close> statement
  and no check of its input: a \<^verbatim>\<open>KeyError\<close> is raised by a dictionary lookup that finds no
  key, and \<^verbatim>\<open>UnboundLocalError\<close> by reading a local variable that was never assigned.\<close>

datatype error_origin = RaiseStatement | FailedLookup | UnassignedVariable

fun origin :: "error \<Rightarrow> error_origin" where
  "origin (KeyError site key) = FailedLookup"
| "origin UnboundLocalError = UnassignedVariable"

subsection \<open>The functions of sdf.py\<close>

definition JOINT_TYPE_MAP :: "string \<rightharpoonup> string" where
  "JOINT_TYPE_MAP =
     [''revolute'' \<mapsto> ''revolute'', ''prismatic'' \<mapsto> ''prismatic'', ''fixed'' \<mapsto> ''fixed'']"

definition convert_transform :: "'t transform_ops \<Rightarrow> real list option \<Rightarrow> 't" where
  "convert_transform ops pose =
     (case pose of
        None \<Rightarrow> Transform ops None None
      | Some p \<Rightarrow> Transform ops (Some (drop 3 p)) (Some (take 3 p)))"

text \<open>The body of the loop of \<^verbatim>\<open>_convert_visuals\<close>: the Visual made from one entry.\<close>

definition convert_visual :: "'t transform_ops \<Rightarrow> sdf_visual \<Rightarrow> 't Visual" where
  "convert_visual ops v =
     (let v_tf = convert_transform ops (v_pose v) in
      case v_geometry v of
        Mesh filename \<Rightarrow>
          \<lparr>visual_offset = v_tf, geom_type = Some ''mesh'', geom_param = ParamFilename filename\<rparr>
      | Cylinder radius len \<Rightarrow>
          \<lparr>visual_offset = tf_mul ops v_tf (Transform ops (Some (deg2rad [90, 0, 0])) None),
           geom_type = Some ''cylinder'', geom_param = ParamRadiusLength radius len\<rparr>
      | Box sz \<Rightarrow>
          \<lparr>visual_offset = v_tf, geom_type = Some ''box'', geom_param = ParamSize sz\<rparr>
      | Sphere radius \<Rightarrow>
          \<lparr>visual_offset = v_tf, geom_type = Some ''sphere'', geom_param = ParamRadius radius\<rparr>
      | OtherGeometry \<Rightarrow>
          \<lparr>visual_offset = v_tf, geom_type = None, geom_param = ParamNone\<rparr>)"

text \<open>The loop itself: \<open>vlist\<close> is the list built so far.\<close>

fun convert_visuals_loop ::
  "'t transform_ops \<Rightarrow> 't Visual list \<Rightarrow> sdf_visual list \<Rightarrow> 't Visual list" where
  "convert_visuals_loop ops vlist [] = vlist"
| "convert_visuals_loop ops vlist (v # vs) =
     convert_visuals_loop ops (vlist @ [convert_visual ops v]) vs"

definition convert_visuals :: "'t transform_ops \<Rightarrow> sdf_visual list \<Rightarrow> 't Visual list" where
  "convert_visuals ops vs = convert_visuals_loop ops [] vs"

text \<open>Lines 46 to 56 of \<^verbatim>\<open>_build_chain_recurse\<close>: the child frame of a matching joint, its
  children not yet assigned. The two link lookups and the joint type lookup raise
  \<^verbatim>\<open>KeyError\<close> in this order.\<close>

definition new_child_frame ::
  "'t transform_ops \<Rightarrow> (string \<rightharpoonup> sdf_link) \<Rightarrow> sdf_joint \<Rightarrow> error + 't frame" where
  "new_child_frame ops lmap j =
     (case lmap (j_parent j) of
        None \<Rightarrow> Inl (KeyError ParentLink (j_parent j))
      | Some link_p \<Rightarrow>
         (case lmap (j_child j) of
            None \<Rightarrow> Inl (KeyError ChildLink (j_child j))
          | Some link_c \<Rightarrow>
             (let t_p = convert_transform ops (l_pose link_p);
                  t_c = convert_transform ops (l_pose link_c)
              in case JOINT_TYPE_MAP (j_type j) of
                   None \<Rightarrow> Inl (KeyError JointType (j_type j))
                 | Some jt \<Rightarrow>
                     Inr (Frame (j_child j @ ''_frame'')
                           \<lparr>joint_name = Some (j_name j),
                            offset = tf_mul ops (tf_inverse ops t_p) t_c,
                            joint_type = Some jt,
                            axis = Some (j_axis_xyz j)\<rparr>
                           \<lparr>link_name = l_name link_c,
                            link_offset = Transform ops None None,
                            visuals = convert_visuals ops (l_visuals link_c)\<rparr>
                           []))))"

text \<open>
  \<^verbatim>\<open>_build_chain_recurse\<close>. \<open>recurse_loop n ops root_frame lmap joints js\<close> runs the
  \<^verbatim>\<open>for\<close> loop over the joints \<open>js\<close> still to scan, inside a call that may nest \<open>n\<close>
  calls deep. The source appends each finished child to \<^verbatim>\<open>children\<close> at the end of its
  iteration; here the child is put in front of the children the remaining iterations
  produce, which is the same list.
\<close>

fun recurse_loop ::
  "nat \<Rightarrow> 't transform_ops \<Rightarrow> 't frame \<Rightarrow> (string \<rightharpoonup> sdf_link) \<Rightarrow> sdf_joint list \<Rightarrow>
   sdf_joint list \<Rightarrow> (error + 't frame list) option" where
  "recurse_loop 0 ops root_frame lmap joints js = None"
| "recurse_loop (Suc n) ops root_frame lmap joints [] = Some (Inr [])"
| "recurse_loop (Suc n) ops root_frame lmap joints (j # js) =
     (if j_parent j = link_name (link root_frame) then
        (case new_child_frame ops lmap j of
           Inl e \<Rightarrow> Some (Inl e)
         | Inr child_frame \<Rightarrow>
            (case recurse_loop n ops child_frame lmap joints joints of
               None \<Rightarrow> None
             | Some (Inl e) \<Rightarrow> Some (Inl e)
             | Some (Inr chs) \<Rightarrow>
                (case recurse_loop (Suc n) ops root_frame lmap joints js of
                   None \<Rightarrow> None
                 | Some (Inl e) \<Rightarrow> Some (Inl e)
                 | Some (Inr rest) \<Rightarrow>
                     Some (Inr (Frame (frame_name child_frame) (joint child_frame)
                                  (link child_frame) chs # rest)))))
      else recurse_loop (Suc n) ops root_frame lmap joints js)"

definition build_chain_recurse ::
  "nat \<Rightarrow> 't transform_ops \<Rightarrow> 't frame \<Rightarrow> (string \<rightharpoonup> sdf_link) \<Rightarrow> sdf_joint list \<Rightarrow>
   (error + 't frame list) option" where
  "build_chain_recurse n ops root_frame lmap joints =
     recurse_loop n ops root_frame lmap joints joints"

text \<open>Lines 81 to 87 of \<^verbatim>\<open>build_chain_from_sdf\<close>: the list \<^verbatim>\<open>has_root\<close> after the scan of
  all pairs \<open>i < j\<close>. Every index used is below the length of the lists.\<close>

definition scan_pair :: "sdf_joint list \<Rightarrow> nat \<Rightarrow> bool list \<Rightarrow> nat \<Rightarrow> bool list" where
  "scan_pair js i has_root j =
     (if j_parent (js ! i) = j_child (js ! j) then has_root[i := False]
      else if j_parent (js ! j) = j_child (js ! i) then has_root[j := False]
      else has_root)"

definition has_root_scan :: "sdf_joint list \<Rightarrow> bool list" where
  "has_root_scan js =
     (let n_joints = length js in
      foldl (\<lambda>has_root i. foldl (scan_pair js i) has_root [Suc i..<n_joints])
        (replicate (length js) True) [0..<n_joints])"

text \<open>Lines 88 to 91: the link of the first joint still marked, or the failures of line 90
  (no such key) and of line 92 (\<^verbatim>\<open>root_link\<close> was never assigned).\<close>

definition find_root_link :: "(string \<rightharpoonup> sdf_link) \<Rightarrow> sdf_joint list \<Rightarrow> error + sdf_link" where
  "find_root_link lmap js =
     (let has_root = has_root_scan js in
      case find (\<lambda>i. has_root ! i) [0..<length js] of
        None \<Rightarrow> Inl UnboundLocalError
      | Some i \<Rightarrow>
         (case lmap (j_parent (js ! i)) of
            None \<Rightarrow> Inl (KeyError RootLink (j_parent (js ! i)))
          | Some root_link \<Rightarrow> Inr root_link))"

text \<open>Lines 92 to 94: the root frame before its children are assigned.\<close>

definition new_root_frame :: "'t transform_ops \<Rightarrow> sdf_link \<Rightarrow> 't frame" where
  "new_root_frame ops root_link =
     Frame (l_name root_link @ ''_frame'')
       \<lparr>joint_name = None, offset = convert_transform ops (l_pose root_link),
        joint_type = None, axis = None\<rparr>
       \<lparr>link_name = l_name root_link, link_offset = Transform ops None None,
        visuals = convert_visuals ops (l_visuals root_link)\<rparr>
       []"

text \<open>\<^verbatim>\<open>build_chain_from_sdf\<close>, from the parsed model on (parsing the XML text is the work
  of another module). \<open>n\<close> is the fuel of the recursion.\<close>

definition build_chain_from_sdf ::
  "nat \<Rightarrow> 't transform_ops \<Rightarrow> sdf_model \<Rightarrow> (error + 't chain) option" where
  "build_chain_from_sdf n ops robot =
     (let lmap = model_link_map robot; js = model_joints robot in
      case find_root_link lmap js of
        Inl e \<Rightarrow> Some (Inl e)
      | Inr root_link \<Rightarrow>
         (let root_frame = new_root_frame ops root_link in
          case build_chain_recurse n ops root_frame lmap js of
            None \<Rightarrow> None
          | Some (Inl e) \<Rightarrow> Some (Inl e)
          | Some (Inr chs) \<Rightarrow>
              Some (Inr (Chain (Frame (frame_name root_frame) (joint root_frame)
                                  (link root_frame) chs)))))"

subsection \<open>Notions used to state the properties\<close>

text \<open>The frames of a tree in depth-first order, the root first; the descendants of a frame
  are the frames below it, which is what a traversal from the root reaches apart from the
  root itself.\<close>

fun frames_of :: "'t frame \<Rightarrow> 't frame list" where
  "frames_of (Frame nm jt lk chs) = Frame nm jt lk chs # concat (map frames_of chs)"

text \<open>
  The joints expanded by a run of \<^verbatim>\<open>_build_chain_recurse\<close>, in the order of expansion: a
  joint is expanded when the test of line 45 succeeds for it and lines 46 to 58 are
  entered. The function follows the control flow of \<open>recurse_loop\<close>: after an expanded
  joint the run goes on with the recursive call, and with the rest of the loop only if
  that call returned a list. It is used in statements only.
\<close>

fun expanded ::
  "nat \<Rightarrow> 't transform_ops \<Rightarrow> 't frame \<Rightarrow> (string \<rightharpoonup> sdf_link) \<Rightarrow> sdf_joint list \<Rightarrow>
   sdf_joint list \<Rightarrow> sdf_joint list" where
  "expanded 0 ops root_frame lmap joints js = []"
| "expanded (Suc n) ops root_frame lmap joints [] = []"
| "expanded (Suc n) ops root_frame lmap joints (j # js) =
     (if j_parent j = link_name (link root_frame) then
        j # (case new_child_frame ops lmap j of
               Inl e \<Rightarrow> []
             | Inr child_frame \<Rightarrow>
                 expanded n ops child_frame lmap joints joints @
                 (case recurse_loop n ops child_frame lmap joints joints of
                    Some (Inr chs) \<Rightarrow> expanded (Suc n) ops root_frame lmap joints js
                  | _ \<Rightarrow> []))
      else expanded (Suc n) ops root_frame lmap joints js)"

text \<open>The joints expanded by a run of \<^verbatim>\<open>build_chain_from_sdf\<close>.\<close>

definition build_expanded :: "nat \<Rightarrow> 't transform_ops \<Rightarrow> sdf_model \<Rightarrow> sdf_joint list" where
  "build_expanded n ops robot =
     (let lmap = model_link_map robot; js = model_joints robot in
      case find_root_link lmap js of
        Inl e \<Rightarrow> []
      | Inr root_link \<Rightarrow> expanded n ops (new_root_frame ops root_link) lmap js js)"

text \<open>The parser stores every link under its own name (the link map is a mapping from link
  name to link record). \<open>link_map_keyed\<close> says so for the names the joints mention.\<close>

definition keyed_by_name :: "(string \<rightharpoonup> sdf_link) \<Rightarrow> string \<Rightarrow> bool" where
  "keyed_by_name lmap k = (case lmap k of None \<Rightarrow> True | Some l \<Rightarrow> l_name l = k)"

definition link_map_keyed :: "(string \<rightharpoonup> sdf_link) \<Rightarrow> sdf_joint list \<Rightarrow> bool" where
  "link_map_keyed lmap js =
     (\<forall>j\<in>set js. keyed_by_name lmap (j_parent j) \<and> keyed_by_name lmap (j_child j))"


text \<open>A frame without its children: the name, the joint and the link.\<close>

definition strip_children :: "'t frame \<Rightarrow> 't frame" where
  "strip_children f = Frame (frame_name f) (joint f) (link f) []"

definition descendants :: "'t frame \<Rightarrow> 't frame list" where
  "descendants f = concat (map frames_of (children f))"





subsection \<open>Root discovery, as a predicate\<close>

text \<open>Joint \<open>k\<close> loses its mark in the scan of the pairs: when its parent is the child of a
  later joint, or when its parent is the child of an earlier joint \<open>i\<close> whose own parent
  is not the child of \<open>k\<close> (the second test of a pair is an \<^verbatim>\<open>elif\<close>).\<close>

definition disqualified :: "sdf_joint list \<Rightarrow> nat \<Rightarrow> bool" where
  "disqualified js k =
     ((\<exists>j\<in>set [Suc k..<length js]. j_parent (js ! k) = j_child (js ! j))
      \<or> (\<exists>i\<in>set [0..<k]. j_parent (js ! i) \<noteq> j_child (js ! k)
                           \<and> j_parent (js ! k) = j_child (js ! i)))"

subsection \<open>Sample inputs\<close>

text \<open>A free implementation of the transform class, whose values are the terms built by
  the three operations. It serves to run the functions on concrete inputs.\<close>

datatype tf_term =
    TfNew "real list option" "real list option"
  | TfMul tf_term tf_term
  | TfInverse tf_term

definition term_ops :: "tf_term transform_ops" where
  "term_ops = \<lparr>Transform = TfNew, tf_mul = TfMul, tf_inverse = TfInverse\<rparr>"

definition mk_link :: "string \<Rightarrow> sdf_link" where
  "mk_link nm = \<lparr>l_name = nm, l_pose = None, l_visuals = []\<rparr>"

definition mk_joint :: "string \<Rightarrow> string \<Rightarrow> string \<Rightarrow> string \<Rightarrow> sdf_joint" where
  "mk_joint nm ty p c =
     \<lparr>j_name = nm, j_type = ty, j_parent = p, j_child = c, j_axis_xyz = [0, 0, 1]\<rparr>"

definition links_ABC :: "string \<rightharpoonup> sdf_link" where
  "links_ABC = [''A'' \<mapsto> mk_link ''A'', ''B'' \<mapsto> mk_link ''B'', ''C'' \<mapsto> mk_link ''C'']"

definition chain_ABC :: "sdf_joint list" where
  "chain_ABC = [mk_joint ''J1'' ''revolute'' ''A'' ''B'', mk_joint ''J2'' ''fixed'' ''B'' ''C'']"

definition two_cycle :: "sdf_joint list" where
  "two_cycle = [mk_joint ''J0'' ''revolute'' ''A'' ''B'', mk_joint ''J1'' ''revolute'' ''B'' ''A'']"

definition three_cycle :: "sdf_joint list" where
  "three_cycle =
     [mk_joint ''J0'' ''revolute'' ''A'' ''B'', mk_joint ''J1'' ''revolute'' ''B'' ''C'',
      mk_joint ''J2'' ''revolute'' ''C'' ''A'']"

definition robot_ABC :: sdf_model where
  "robot_ABC = \<lparr>model_link_map = links_ABC, model_joints = chain_ABC\<rparr>"

definition robot_bad_type :: sdf_model where
  "robot_bad_type = \<lparr>model_link_map = links_ABC, model_joints =
     [mk_joint ''J1'' ''revolute'' ''A'' ''B'', mk_joint ''J2'' ''floating'' ''B'' ''C'']\<rparr>"

definition robot_no_C :: sdf_model where
  "robot_no_C = \<lparr>model_link_map = [''A'' \<mapsto> mk_link ''A'', ''B'' \<mapsto> mk_link ''B''],
     model_joints = chain_ABC\<rparr>"

definition links_posed :: "string \<rightharpoonup> sdf_link" where
  "links_posed = [''A'' \<mapsto> \<lparr>l_name = ''A'', l_pose = Some [1, 0, 0, 0, 0, 0], l_visuals = []\<rparr>,
                  ''B'' \<mapsto> \<lparr>l_name = ''B'', l_pose = None, l_visuals = []\<rparr>]"







definition sample_visuals :: "sdf_visual list" where
  "sample_visuals =
     [\<lparr>v_pose = Some [1, 2, 3, 0, 0, 0], v_geometry = Cylinder 1 2\<rparr>,
      \<lparr>v_pose = None, v_geometry = Box [1, 1, 1]\<rparr>,
      \<lparr>v_pose = None, v_geometry = OtherGeometry\<rparr>]"

section \<open>Geometry normalisation\<close>

lemma convert_visuals_loop_eq:
  "convert_visuals_loop ops vlist vs = vlist @ map (convert_visual ops) vs"
  by (induction vs arbitrary: vlist) simp_all

lemma convert_visuals_map: "convert_visuals ops vs = map (convert_visual ops) vs"
  by (simp add: convert_visuals_def convert_visuals_loop_eq)

lemma deg2rad_quarter_turn: "deg2rad [90, 0, 0] = [pi / 2, 0, 0]"
  by (simp add: deg2rad_def)

lemma convert_visuals_nth:
  "i < length vs \<Longrightarrow> convert_visuals ops vs ! i = convert_visual ops (vs ! i)"
  by (simp add: convert_visuals_map)

text \<open>
  Claim C5. Every visual entry is turned into a Visual at the same position of the
  result. For a cylinder, its transform is the converted local pose multiplied on the
  right by \<^verbatim>\<open>Transform(rot=deg2rad([90, 0, 0]))\<close>, the rotation whose first (X) angle is
  a quarter turn, \<open>pi / 2\<close>, and whose other angles are zero. For a mesh, a box or a
  sphere it is the converted local pose itself.
\<close>

theorem visual_transform_by_shape:
  assumes "i < length vs"
  shows "(\<forall>r l. v_geometry (vs ! i) = Cylinder r l \<longrightarrow>
            visual_offset (convert_visuals ops vs ! i) =
              tf_mul ops (convert_transform ops (v_pose (vs ! i)))
                (Transform ops (Some [pi / 2, 0, 0]) None))
       \<and> ((\<exists>f. v_geometry (vs ! i) = Mesh f) \<or> (\<exists>sz. v_geometry (vs ! i) = Box sz)
            \<or> (\<exists>r. v_geometry (vs ! i) = Sphere r) \<longrightarrow>
            visual_offset (convert_visuals ops vs ! i) = convert_transform ops (v_pose (vs ! i)))"
  using assms
  by (auto simp: convert_visuals_nth convert_visual_def deg2rad_quarter_turn)

theorem visual_transform_by_shape_witness:
  "visual_offset (convert_visuals term_ops sample_visuals ! 0) =
     TfMul (TfNew (Some [0, 0, 0]) (Some [1, 2, 3])) (TfNew (Some [pi / 2, 0, 0]) None)
   \<and> visual_offset (convert_visuals term_ops sample_visuals ! 1) = TfNew None None"
  using visual_transform_by_shape [of 0 sample_visuals term_ops]
    visual_transform_by_shape [of 1 sample_visuals term_ops]
  by (simp add: sample_visuals_def term_ops_def convert_transform_def)

text \<open>
  Claim C6. A visual entry whose geometry is none of mesh, cylinder, box and sphere
  still yields a Visual (the function has no failing branch): its shape kind and its
  shape parameters are both the none marker, and its transform is the converted pose.
\<close>

theorem unknown_shape_degrades:
  assumes "i < length vs" and "v_geometry (vs ! i) = OtherGeometry"
  shows "length (convert_visuals ops vs) = length vs
       \<and> geom_type (convert_visuals ops vs ! i) = None
       \<and> geom_param (convert_visuals ops vs ! i) = ParamNone
       \<and> visual_offset (convert_visuals ops vs ! i) = convert_transform ops (v_pose (vs ! i))"
  using assms by (simp add: convert_visuals_map convert_visual_def)

theorem unknown_shape_degrades_witness:
  "length (convert_visuals term_ops sample_visuals) = 3
   \<and> geom_type (convert_visuals term_ops sample_visuals ! 2) = None
   \<and> geom_param (convert_visuals term_ops sample_visuals ! 2) = ParamNone"
  using unknown_shape_degrades [of 2 sample_visuals term_ops]
  by (simp add: sample_visuals_def)

section \<open>Root discovery\<close>

lemma scan_pair_length: "length (scan_pair js i hr j) = length hr"
  by (simp add: scan_pair_def)

lemma inner_scan:
  assumes "i < length hr"
  shows "m \<le> length hr \<Longrightarrow>
         length (foldl (scan_pair js i) hr [Suc i..<m]) = length hr
       \<and> (\<forall>k<length hr. foldl (scan_pair js i) hr [Suc i..<m] ! k =
            (hr ! k
             \<and> \<not> (k = i \<and> (\<exists>j. i < j \<and> j < m \<and> j_parent (js ! i) = j_child (js ! j)))
             \<and> \<not> (i < k \<and> k < m \<and> j_parent (js ! i) \<noteq> j_child (js ! k)
                       \<and> j_parent (js ! k) = j_child (js ! i))))"
proof (induction m)
  case 0
  then show ?case by simp
next
  case (Suc m)
  show ?case
  proof (cases "Suc i \<le> m")
    case False
    then show ?thesis by auto
  next
    case True
    then have upt: "[Suc i..<Suc m] = [Suc i..<m] @ [m]" by simp
    from Suc have IH: "length (foldl (scan_pair js i) hr [Suc i..<m]) = length hr"
      "\<And>k. k < length hr \<Longrightarrow> foldl (scan_pair js i) hr [Suc i..<m] ! k =
            (hr ! k
             \<and> \<not> (k = i \<and> (\<exists>j. i < j \<and> j < m \<and> j_parent (js ! i) = j_child (js ! j)))
             \<and> \<not> (i < k \<and> k < m \<and> j_parent (js ! i) \<noteq> j_child (js ! k)
                       \<and> j_parent (js ! k) = j_child (js ! i)))"
      by auto
    have m: "m < length hr" using Suc.prems by simp
    show ?thesis
      unfolding upt foldl_append
      using IH m assms True
      by (auto simp: scan_pair_def nth_list_update less_Suc_eq intro: exI[of _ m])
  qed
qed

lemma outer_scan:
  assumes n: "n = length js"
  shows "m \<le> n \<Longrightarrow>
         length (foldl (\<lambda>hr i. foldl (scan_pair js i) hr [Suc i..<n]) (replicate n True) [0..<m]) = n
       \<and> (\<forall>k<n. foldl (\<lambda>hr i. foldl (scan_pair js i) hr [Suc i..<n]) (replicate n True) [0..<m] ! k =
            (\<not> (k < m \<and> (\<exists>j. k < j \<and> j < n \<and> j_parent (js ! k) = j_child (js ! j)))
             \<and> \<not> (\<exists>i<m. i < k \<and> j_parent (js ! i) \<noteq> j_child (js ! k)
                       \<and> j_parent (js ! k) = j_child (js ! i))))"
proof (induction m)
  case 0
  then show ?case by simp
next
  case (Suc m)
  let ?hr = "foldl (\<lambda>hr i. foldl (scan_pair js i) hr [Suc i..<n]) (replicate n True) [0..<m]"
  from Suc have len: "length ?hr = n"
    and IH: "\<And>k. k < n \<Longrightarrow> ?hr ! k =
            (\<not> (k < m \<and> (\<exists>j. k < j \<and> j < n \<and> j_parent (js ! k) = j_child (js ! j)))
             \<and> \<not> (\<exists>i<m. i < k \<and> j_parent (js ! i) \<noteq> j_child (js ! k)
                       \<and> j_parent (js ! k) = j_child (js ! i)))"
    by auto
  have m: "m < length ?hr" using Suc.prems len by simp
  have nn: "n \<le> length ?hr" using len by simp
  note inner = inner_scan [OF m nn, of js]
  show ?case
    using inner IH len Suc.prems
    by (auto simp: less_Suc_eq)
qed

lemma has_root_scan_length: "length (has_root_scan js) = length js"
  using outer_scan [of "length js" js "length js"] by (simp add: has_root_scan_def Let_def)

lemma has_root_scan_nth:
  "k < length js \<Longrightarrow> has_root_scan js ! k = (\<not> disqualified js k)"
  using outer_scan [of "length js" js "length js"]
  by (auto simp: has_root_scan_def disqualified_def Let_def)

lemma find_root_link_eq:
  "find_root_link lmap js =
     (case find (\<lambda>k. \<not> disqualified js k) [0..<length js] of
        None \<Rightarrow> Inl UnboundLocalError
      | Some k \<Rightarrow>
         (case lmap (j_parent (js ! k)) of
            None \<Rightarrow> Inl (KeyError RootLink (j_parent (js ! k)))
          | Some root_link \<Rightarrow> Inr root_link))"
proof -
  have "find (\<lambda>i. has_root_scan js ! i) [0..<length js]
        = find (\<lambda>k. \<not> disqualified js k) [0..<length js]"
    by (rule find_cong) (simp_all add: has_root_scan_nth)
  then show ?thesis by (simp add: find_root_link_def Let_def)
qed

text \<open>
  Claim C1, amended. The list \<^verbatim>\<open>has_root\<close> keeps one entry per joint. For every pair
  \<open>i < j\<close>: joint \<open>i\<close> is disqualified if its parent equals the child of \<open>j\<close>; joint \<open>j\<close>
  is disqualified if its parent equals the child of \<open>i\<close> and the parent of \<open>i\<close> does not
  equal the child of \<open>j\<close>; no other joint is disqualified. The root link is the entry of
  the link map at the parent of the first joint, in input order, that is not
  disqualified; without such a joint \<^verbatim>\<open>root_link\<close> stays unbound, and a parent missing
  from the link map is a \<^verbatim>\<open>KeyError\<close>.
\<close>

theorem root_discovery:
  "length (has_root_scan js) = length js
   \<and> (\<forall>k<length js. has_root_scan js ! k = (\<not> disqualified js k))
   \<and> find_root_link lmap js =
       (case find (\<lambda>k. \<not> disqualified js k) [0..<length js] of
          None \<Rightarrow> Inl UnboundLocalError
        | Some k \<Rightarrow>
           (case lmap (j_parent (js ! k)) of
              None \<Rightarrow> Inl (KeyError RootLink (j_parent (js ! k)))
            | Some root_link \<Rightarrow> Inr root_link))"
  using has_root_scan_length [of js] find_root_link_eq [of lmap js]
  by (simp add: has_root_scan_nth)


theorem root_discovery_witness:
  "has_root_scan chain_ABC ! 0 \<and> \<not> has_root_scan chain_ABC ! 1
   \<and> find_root_link links_ABC chain_ABC = Inr (mk_link ''A'')"
proof -
  have d0: "\<not> disqualified chain_ABC 0"
    by (simp add: disqualified_def chain_ABC_def mk_joint_def)
  have d1: "disqualified chain_ABC (Suc 0)"
    by (simp add: disqualified_def chain_ABC_def mk_joint_def)
  have len: "length chain_ABC = Suc (Suc 0)"
    by (simp add: chain_ABC_def)
  have p0: "j_parent (chain_ABC ! 0) = ''A''"
    by (simp add: chain_ABC_def mk_joint_def)
  from root_discovery [of chain_ABC links_ABC] show ?thesis
    by (simp add: len d0 d1 p0 links_ABC_def)
qed

text \<open>
  Claim C1 as stated fails on two joints that are parent and child of each other: the
  parent of the second joint is the child of the first, yet the second joint keeps its
  mark, and its parent \<open>B\<close> becomes the root link.
\<close>

theorem root_discovery_counterexample:
  "j_parent (two_cycle ! 1) = j_child (two_cycle ! 0)
   \<and> has_root_scan two_cycle ! 1
   \<and> find_root_link links_ABC two_cycle = Inr (mk_link ''B'')"
  by (simp add: find_root_link_def has_root_scan_def scan_pair_def two_cycle_def links_ABC_def
      mk_joint_def)

lemma three_cycle_scan: "has_root_scan three_cycle = [False, False, False]"
  by (simp add: has_root_scan_def scan_pair_def three_cycle_def mk_joint_def)

text \<open>
  Claim C9, amended. When the joint list is empty, or when the scan leaves no joint
  marked, the build fails with \<^verbatim>\<open>UnboundLocalError\<close>: \<^verbatim>\<open>root_link\<close> was never assigned
  and is read at line 92, before the root frame is made. The source has no check and no
  \<^verbatim>\<open>raise\<close> for this case. The result is the same for every amount of fuel, zero
  included, so the recursion is not entered; no chain is returned.
\<close>

theorem no_root_fails:
  assumes "model_joints robot = []
         \<or> (\<forall>i<length (model_joints robot). \<not> has_root_scan (model_joints robot) ! i)"
  shows "build_chain_from_sdf n ops robot = Some (Inl UnboundLocalError)"
proof -
  from assms
  have "\<not> (\<exists>i. i \<in> set [0..<length (model_joints robot)] \<and> has_root_scan (model_joints robot) ! i)"
    by auto
  then have "find (\<lambda>i. has_root_scan (model_joints robot) ! i) [0..<length (model_joints robot)] = None"
    by (simp add: find_None_iff)
  then show ?thesis
    by (simp add: build_chain_from_sdf_def find_root_link_def Let_def)
qed

theorem no_root_fails_witness:
  "build_chain_from_sdf 0 term_ops \<lparr>model_link_map = links_ABC, model_joints = []\<rparr>
     = Some (Inl UnboundLocalError)
   \<and> build_chain_from_sdf 0 term_ops \<lparr>model_link_map = links_ABC, model_joints = three_cycle\<rparr>
     = Some (Inl UnboundLocalError)"
proof -
  have len: "length three_cycle = Suc (Suc (Suc 0))"
    by (simp add: three_cycle_def)
  have "\<forall>i<length three_cycle. \<not> has_root_scan three_cycle ! i"
    by (simp add: len three_cycle_scan less_Suc_eq)
  then show ?thesis
    using no_root_fails [of "\<lparr>model_link_map = links_ABC, model_joints = []\<rparr>" 0 term_ops]
      no_root_fails [of "\<lparr>model_link_map = links_ABC, model_joints = three_cycle\<rparr>" 0 term_ops]
    by simp
qed

text \<open>
  Claim C9 as stated fails on the empty joint list: the build does fail and returns no
  chain, but the failure is not an explicit structural error. It is the error of reading
  the unassigned \<^verbatim>\<open>root_link\<close>, which no \<^verbatim>\<open>raise\<close> statement of the module produces.
\<close>

theorem no_root_fails_counterexample:
  "build_chain_from_sdf (Suc 0) term_ops \<lparr>model_link_map = links_ABC, model_joints = []\<rparr>
     = Some (Inl UnboundLocalError)
   \<and> origin UnboundLocalError = UnassignedVariable
   \<and> origin UnboundLocalError \<noteq> RaiseStatement"
  by (simp add: build_chain_from_sdf_def find_root_link_def has_root_scan_def)

section \<open>The recursion: basic facts\<close>


lemma new_child_frame_Inr:
  assumes "new_child_frame ops lmap j = Inr cf"
  obtains link_p link_c jt where
    "lmap (j_parent j) = Some link_p" "lmap (j_child j) = Some link_c"
    "JOINT_TYPE_MAP (j_type j) = Some jt"
    "cf = Frame (j_child j @ ''_frame'')
            \<lparr>joint_name = Some (j_name j),
             offset = tf_mul ops (tf_inverse ops (convert_transform ops (l_pose link_p)))
                        (convert_transform ops (l_pose link_c)),
             joint_type = Some jt, axis = Some (j_axis_xyz j)\<rparr>
            \<lparr>link_name = l_name link_c, link_offset = Transform ops None None,
             visuals = convert_visuals ops (l_visuals link_c)\<rparr> []"
  using assms
  by (auto simp: new_child_frame_def Let_def split: option.splits)

lemma new_child_frame_Inl:
  assumes "new_child_frame ops lmap j = Inl e"
  shows "(lmap (j_parent j) = None \<and> e = KeyError ParentLink (j_parent j))
       \<or> (lmap (j_parent j) \<noteq> None \<and> lmap (j_child j) = None \<and> e = KeyError ChildLink (j_child j))
       \<or> (lmap (j_parent j) \<noteq> None \<and> lmap (j_child j) \<noteq> None \<and> JOINT_TYPE_MAP (j_type j) = None
           \<and> e = KeyError JointType (j_type j))"
  using assms
  by (auto simp: new_child_frame_def Let_def split: option.splits)

lemma recurse_loop_fuel_mono:
  "recurse_loop n ops rf lmap joints js = Some r \<Longrightarrow> n \<le> m \<Longrightarrow>
   recurse_loop m ops rf lmap joints js = Some r"
proof (induction n ops rf lmap joints js arbitrary: m r rule: recurse_loop.induct)
  case (1 ops root_frame lmap joints js)
  then show ?case by simp
next
  case (2 n ops root_frame lmap joints)
  then show ?case by (cases m) auto
next
  case (3 n ops root_frame lmap joints j js)
  from "3.prems"(2) obtain m' where m: "m = Suc m'" and le: "n \<le> m'" by (cases m) auto
  have le': "Suc n \<le> Suc m'" using le by simp
  note run = "3.prems"(1)
  show ?case
  proof (cases "j_parent j = link_name (link root_frame)")
    case False
    from run False have a: "recurse_loop (Suc n) ops root_frame lmap joints js = Some r"
      by simp
    have "recurse_loop (Suc m') ops root_frame lmap joints js = Some r"
      by (rule "3.IH"(3) [OF False a le'])
    with False m show ?thesis by simp
  next
    case True
    show ?thesis
    proof (cases "new_child_frame ops lmap j")
      case (Inl e)
      with True run m show ?thesis by simp
    next
      case (Inr cf)
      show ?thesis
      proof (cases "recurse_loop n ops cf lmap joints joints")
        case None
        with True Inr run show ?thesis by simp
      next
        case (Some rc)
        have rc: "recurse_loop m' ops cf lmap joints joints = Some rc"
          by (rule "3.IH"(1) [OF True Inr Some le])
        show ?thesis
        proof (cases rc)
          case (Inl e)
          with True Inr Some rc run m show ?thesis by auto
        next
          case chs: (Inr chs)
          show ?thesis
          proof (cases "recurse_loop (Suc n) ops root_frame lmap joints js")
            case None
            with True Inr Some chs run show ?thesis by simp
          next
            case rs: (Some rs)
            have "recurse_loop (Suc m') ops root_frame lmap joints js = Some rs"
              by (rule "3.IH"(2) [OF True Inr Some chs rs le'])
            with True Inr Some chs rs rc run m show ?thesis by auto
          qed
        qed
      qed
    qed
  qed
qed


lemma recurse_loop_skip:
  "j_parent j \<noteq> link_name (link rf) \<Longrightarrow>
   recurse_loop (Suc n) ops rf lmap joints (j # js) = recurse_loop (Suc n) ops rf lmap joints js"
  by simp

lemma recurse_loop_Cons_Inr:
  assumes "recurse_loop (Suc n) ops rf lmap joints (j # js) = Some (Inr fs)"
    and "j_parent j = link_name (link rf)"
  obtains cf chs rest where
    "new_child_frame ops lmap j = Inr cf"
    "recurse_loop n ops cf lmap joints joints = Some (Inr chs)"
    "recurse_loop (Suc n) ops rf lmap joints js = Some (Inr rest)"
    "fs = Frame (frame_name cf) (joint cf) (link cf) chs # rest"
  using assms by (auto split: sum.splits option.splits)

lemma recurse_loop_Cons_Inl:
  assumes "recurse_loop (Suc n) ops rf lmap joints (j # js) = Some (Inl e)"
    and "j_parent j = link_name (link rf)"
  shows "new_child_frame ops lmap j = Inl e
       \<or> (\<exists>cf. new_child_frame ops lmap j = Inr cf
              \<and> (recurse_loop n ops cf lmap joints joints = Some (Inl e)
                 \<or> (\<exists>chs. recurse_loop n ops cf lmap joints joints = Some (Inr chs)
                        \<and> recurse_loop (Suc n) ops rf lmap joints js = Some (Inl e))))"
  using assms by (auto split: sum.splits option.splits)

lemma expanded_hit_Inl:
  "j_parent j = link_name (link rf) \<Longrightarrow> new_child_frame ops lmap j = Inl e \<Longrightarrow>
   expanded (Suc n) ops rf lmap joints (j # js) = [j]"
  by simp

lemma expanded_hit_Inr:
  "j_parent j = link_name (link rf) \<Longrightarrow> new_child_frame ops lmap j = Inr cf \<Longrightarrow>
   expanded (Suc n) ops rf lmap joints (j # js) =
     j # expanded n ops cf lmap joints joints @
       (if \<exists>chs. recurse_loop n ops cf lmap joints joints = Some (Inr chs)
        then expanded (Suc n) ops rf lmap joints js else [])"
  by (auto split: option.splits sum.splits)

lemma recurse_hit_Inl:
  "j_parent j = link_name (link rf) \<Longrightarrow> new_child_frame ops lmap j = Inl e \<Longrightarrow>
   recurse_loop (Suc n) ops rf lmap joints (j # js) = Some (Inl e)"
  by simp

lemma recurse_hit_Inr:
  "j_parent j = link_name (link rf) \<Longrightarrow> new_child_frame ops lmap j = Inr cf \<Longrightarrow>
   recurse_loop (Suc n) ops rf lmap joints (j # js) =
     (case recurse_loop n ops cf lmap joints joints of
        None \<Rightarrow> None
      | Some (Inl e) \<Rightarrow> Some (Inl e)
      | Some (Inr chs) \<Rightarrow>
         (case recurse_loop (Suc n) ops rf lmap joints js of
            None \<Rightarrow> None
          | Some (Inl e) \<Rightarrow> Some (Inl e)
          | Some (Inr rest) \<Rightarrow>
              Some (Inr (Frame (frame_name cf) (joint cf) (link cf) chs # rest))))"
  by simp

text \<open>Induction along the calls and the loop of the recursion.\<close>

lemma recurse_induct [case_names no_fuel nil skip hit]:
  assumes "\<And>rf js. P 0 rf js"
    and "\<And>n rf. P (Suc n) rf []"
    and "\<And>n rf j js. j_parent j \<noteq> link_name (link rf) \<Longrightarrow> P (Suc n) rf js \<Longrightarrow>
           P (Suc n) rf (j # js)"
    and "\<And>n rf j js. j_parent j = link_name (link rf) \<Longrightarrow>
           (\<And>cf. new_child_frame ops lmap j = Inr cf \<Longrightarrow> P n cf joints) \<Longrightarrow>
           P (Suc n) rf js \<Longrightarrow> P (Suc n) rf (j # js)"
  shows "P n rf js"
proof (induction n arbitrary: rf js)
  case 0
  show ?case by (rule assms(1))
next
  case (Suc n)
  have "P (Suc n) rf ks" for ks
  proof (induction ks)
    case Nil
    show ?case by (rule assms(2))
  next
    case (Cons j ks)
    show ?case
    proof (cases "j_parent j = link_name (link rf)")
      case True
      show ?thesis by (rule assms(4) [OF True _ Cons.IH]) (rule Suc.IH)
    next
      case False
      show ?thesis by (rule assms(3) [OF False Cons.IH])
    qed
  qed
  then show ?case .
qed


text \<open>An expanded joint whose child frame cannot be made ends the run with its error.\<close>

lemma expanded_error:
  assumes "new_child_frame ops lmap j = Inl e"
  shows "j \<in> set (expanded n ops rf lmap joints js) \<Longrightarrow>
         recurse_loop n ops rf lmap joints js = Some (Inl e)"
proof (induction n rf js rule: recurse_induct [where ops = ops and lmap = lmap and joints = joints])
  case (hit n rf j' js)
  show ?case
  proof (cases "new_child_frame ops lmap j'")
    case (Inl e')
    with hit.prems hit.hyps assms show ?thesis by auto
  next
    case (Inr cf)
    from hit.prems have "j = j' \<or> j \<in> set (expanded n ops cf lmap joints joints)
        \<or> ((\<exists>chs. recurse_loop n ops cf lmap joints joints = Some (Inr chs))
            \<and> j \<in> set (expanded (Suc n) ops rf lmap joints js))"
      unfolding expanded_hit_Inr [OF hit.hyps Inr] by (auto split: if_splits)
    then show ?thesis
    proof (elim disjE conjE exE)
      assume "j = j'"
      with Inr assms show ?thesis by simp
    next
      assume "j \<in> set (expanded n ops cf lmap joints joints)"
      from hit.IH(1) [OF Inr this] show ?thesis
        unfolding recurse_hit_Inr [OF hit.hyps Inr] by simp
    next
      fix chs
      assume "recurse_loop n ops cf lmap joints joints = Some (Inr chs)"
        and "j \<in> set (expanded (Suc n) ops rf lmap joints js)"
      with hit.IH(2) show ?thesis
        unfolding recurse_hit_Inr [OF hit.hyps Inr] by simp
    qed
  qed
qed auto

text \<open>Every error of the recursion is raised at an expanded joint.\<close>

lemma error_at_expanded:
  "recurse_loop n ops rf lmap joints js = Some (Inl e) \<Longrightarrow>
   \<exists>j\<in>set (expanded n ops rf lmap joints js). new_child_frame ops lmap j = Inl e"
proof (induction n rf js rule: recurse_induct [where ops = ops and lmap = lmap and joints = joints])
  case (hit n rf j js)
  from recurse_loop_Cons_Inl [OF hit.prems hit.hyps] show ?case
  proof (elim disjE exE conjE)
    assume "new_child_frame ops lmap j = Inl e"
    with hit.hyps show ?thesis by simp
  next
    fix cf
    assume cf: "new_child_frame ops lmap j = Inr cf"
      and "recurse_loop n ops cf lmap joints joints = Some (Inl e)"
    from hit.IH(1) [OF this] show ?thesis
      unfolding expanded_hit_Inr [OF hit.hyps cf] by auto
  next
    fix cf chs
    assume cf: "new_child_frame ops lmap j = Inr cf"
      and chs: "recurse_loop n ops cf lmap joints joints = Some (Inr chs)"
      and "recurse_loop (Suc n) ops rf lmap joints js = Some (Inl e)"
    from hit.IH(2) [OF this(3)] chs show ?thesis
      unfolding expanded_hit_Inr [OF hit.hyps cf] by auto
  qed
qed auto

lemma new_child_frame_strip:
  "new_child_frame ops lmap j = Inr cf \<Longrightarrow> strip_children cf = cf"
  by (erule new_child_frame_Inr) (simp add: strip_children_def)

lemma output_follows_trace:
  "recurse_loop n ops rf lmap joints js = Some (Inr fs) \<Longrightarrow>
   map strip_children (concat (map frames_of fs))
     = map (\<lambda>j. projr (new_child_frame ops lmap j)) (expanded n ops rf lmap joints js)
   \<and> (\<forall>j\<in>set (expanded n ops rf lmap joints js). \<exists>cf. new_child_frame ops lmap j = Inr cf)"
proof (induction n rf js arbitrary: fs
    rule: recurse_induct [where ops = ops and lmap = lmap and joints = joints])
  case (hit n rf j js)
  from recurse_loop_Cons_Inr [OF hit.prems hit.hyps] obtain cf chs rest where
    cf: "new_child_frame ops lmap j = Inr cf"
    and chs: "recurse_loop n ops cf lmap joints joints = Some (Inr chs)"
    and rest: "recurse_loop (Suc n) ops rf lmap joints js = Some (Inr rest)"
    and fs: "fs = Frame (frame_name cf) (joint cf) (link cf) chs # rest"
    by blast
  note strip = new_child_frame_strip [OF cf]
  note ih1 = hit.IH(1) [OF cf chs]
  note ih2 = hit.IH(2) [OF rest]
  have "strip_children (Frame (frame_name cf) (joint cf) (link cf) chs) = cf"
    using strip by (simp add: strip_children_def)
  then show ?case
    using ih1 ih2 cf chs
    unfolding expanded_hit_Inr [OF hit.hyps cf] fs
    by auto
qed auto

lemma find_root_link_Inr:
  assumes "find_root_link lmap js = Inr rl"
  obtains i where "i < length js" "has_root_scan js ! i" "lmap (j_parent (js ! i)) = Some rl"
proof -
  from assms obtain i where f: "find (\<lambda>i. has_root_scan js ! i) [0..<length js] = Some i"
    and l: "lmap (j_parent (js ! i)) = Some rl"
    by (auto simp: find_root_link_def Let_def split: option.splits)
  from f have "i < length js" "has_root_scan js ! i"
    by (auto simp: find_Some_iff)
  with l that show thesis by blast
qed

lemma find_root_link_Inl:
  assumes "find_root_link lmap js = Inl e"
  shows "e = UnboundLocalError \<or> (\<exists>k. e = KeyError RootLink k)"
  using assms by (auto simp: find_root_link_def Let_def split: option.splits)

lemma build_Inl_iff:
  "build_chain_from_sdf n ops robot = Some (Inl e) \<longleftrightarrow>
     find_root_link (model_link_map robot) (model_joints robot) = Inl e
   \<or> (\<exists>rl. find_root_link (model_link_map robot) (model_joints robot) = Inr rl
          \<and> recurse_loop n ops (new_root_frame ops rl) (model_link_map robot)
               (model_joints robot) (model_joints robot) = Some (Inl e))"
  by (auto simp: build_chain_from_sdf_def build_chain_recurse_def Let_def
      split: sum.splits option.splits)

lemma build_Inr_iff:
  "build_chain_from_sdf n ops robot = Some (Inr c) \<longleftrightarrow>
     (\<exists>rl chs. find_root_link (model_link_map robot) (model_joints robot) = Inr rl
          \<and> recurse_loop n ops (new_root_frame ops rl) (model_link_map robot)
               (model_joints robot) (model_joints robot) = Some (Inr chs)
          \<and> c = Chain (Frame (l_name rl @ ''_frame'')
                  (joint (new_root_frame ops rl)) (link (new_root_frame ops rl)) chs))"
  by (auto simp: build_chain_from_sdf_def build_chain_recurse_def Let_def new_root_frame_def
      split: sum.splits option.splits)

lemma build_fuel_mono:
  "build_chain_from_sdf n ops robot = Some r \<Longrightarrow> n \<le> m \<Longrightarrow>
   build_chain_from_sdf m ops robot = Some r"
proof (cases "find_root_link (model_link_map robot) (model_joints robot)")
  case (Inl e)
  assume "build_chain_from_sdf n ops robot = Some r"
  with Inl show ?thesis by (simp add: build_chain_from_sdf_def)
next
  case (Inr rl)
  assume run: "build_chain_from_sdf n ops robot = Some r" and le: "n \<le> m"
  from run Inr obtain r' where
    r': "recurse_loop n ops (new_root_frame ops rl) (model_link_map robot)
               (model_joints robot) (model_joints robot) = Some r'"
    by (auto simp: build_chain_from_sdf_def build_chain_recurse_def Let_def
      split: sum.splits option.splits)
  from recurse_loop_fuel_mono [OF r' le] r' run Inr show ?thesis
    by (simp add: build_chain_from_sdf_def build_chain_recurse_def Let_def)
qed

lemma build_expanded_error:
  assumes "j \<in> set (build_expanded n ops robot)"
    and "new_child_frame ops (model_link_map robot) j = Inl e"
  shows "build_chain_from_sdf n ops robot = Some (Inl e)"
proof (cases "find_root_link (model_link_map robot) (model_joints robot)")
  case (Inl e')
  with assms(1) show ?thesis by (simp add: build_expanded_def)
next
  case (Inr rl)
  with assms(1) have "j \<in> set (expanded n ops (new_root_frame ops rl) (model_link_map robot)
      (model_joints robot) (model_joints robot))"
    by (simp add: build_expanded_def Let_def)
  from expanded_error [OF assms(2) this] Inr show ?thesis
    by (simp add: build_Inl_iff)
qed

subsection \<open>Sample runs\<close>

lemmas sample_defs = robot_ABC_def robot_bad_type_def robot_no_C_def links_ABC_def chain_ABC_def
  mk_joint_def mk_link_def

lemmas run_defs = build_chain_from_sdf_def build_expanded_def build_chain_recurse_def
  find_root_link_def has_root_scan_def scan_pair_def new_root_frame_def new_child_frame_def
  JOINT_TYPE_MAP_def convert_visuals_def convert_transform_def Let_def

lemma robot_ABC_trace:
  "build_expanded (Suc (Suc (Suc 0))) term_ops robot_ABC = chain_ABC"
  by (simp add: run_defs sample_defs)

lemma robot_ABC_run:
  "build_chain_from_sdf (Suc (Suc (Suc 0))) term_ops robot_ABC =
     Some (Inr (Chain
       (Frame ''A_frame''
          \<lparr>joint_name = None, offset = TfNew None None, joint_type = None, axis = None\<rparr>
          \<lparr>link_name = ''A'', link_offset = TfNew None None, visuals = []\<rparr>
          [Frame ''B_frame''
             \<lparr>joint_name = Some ''J1'', offset = TfMul (TfInverse (TfNew None None)) (TfNew None None),
              joint_type = Some ''revolute'', axis = Some [0, 0, 1]\<rparr>
             \<lparr>link_name = ''B'', link_offset = TfNew None None, visuals = []\<rparr>
             [Frame ''C_frame''
                \<lparr>joint_name = Some ''J2'', offset = TfMul (TfInverse (TfNew None None)) (TfNew None None),
                 joint_type = Some ''fixed'', axis = Some [0, 0, 1]\<rparr>
                \<lparr>link_name = ''C'', link_offset = TfNew None None, visuals = []\<rparr>
                []]])))"
  by (simp add: run_defs sample_defs term_ops_def)

lemma robot_bad_type_trace:
  "build_expanded (Suc (Suc (Suc 0))) term_ops robot_bad_type = model_joints robot_bad_type"
  by (simp add: run_defs sample_defs)

lemma robot_no_C_trace:
  "build_expanded (Suc (Suc (Suc 0))) term_ops robot_no_C = chain_ABC"
  by (simp add: run_defs sample_defs)

lemma posed_run:
  "build_chain_recurse (Suc (Suc 0)) term_ops
     (new_root_frame term_ops \<lparr>l_name = ''A'', l_pose = Some [1, 0, 0, 0, 0, 0], l_visuals = []\<rparr>)
     links_posed [mk_joint ''J1'' ''revolute'' ''A'' ''B''] =
   Some (Inr [Frame ''B_frame''
     \<lparr>joint_name = Some ''J1'',
      offset = TfMul (TfInverse (TfNew (Some [0, 0, 0]) (Some [1, 0, 0]))) (TfNew None None),
      joint_type = Some ''revolute'', axis = Some [0, 0, 1]\<rparr>
     \<lparr>link_name = ''B'', link_offset = TfNew None None, visuals = []\<rparr> []])"
  by (simp add: run_defs links_posed_def mk_joint_def term_ops_def)

lemma posed_trace:
  "expanded (Suc (Suc 0)) term_ops
     (new_root_frame term_ops \<lparr>l_name = ''A'', l_pose = Some [1, 0, 0, 0, 0, 0], l_visuals = []\<rparr>)
     links_posed [mk_joint ''J1'' ''revolute'' ''A'' ''B''] [mk_joint ''J1'' ''revolute'' ''A'' ''B'']
   = [mk_joint ''J1'' ''revolute'' ''A'' ''B'']"
  by (simp add: run_defs links_posed_def mk_joint_def term_ops_def)

lemma robot_no_C_run:
  "build_chain_from_sdf (Suc (Suc (Suc 0))) term_ops robot_no_C
     = Some (Inl (KeyError ChildLink ''C''))"
  by (simp add: run_defs sample_defs)

section \<open>Lookup failures\<close>

lemma new_child_frame_no_child:
  "lmap (j_child j) = None \<Longrightarrow>
   new_child_frame ops lmap j =
     (if lmap (j_parent j) = None then Inl (KeyError ParentLink (j_parent j))
      else Inl (KeyError ChildLink (j_child j)))"
  by (auto simp: new_child_frame_def split: option.splits)

lemma new_child_frame_no_type:
  "JOINT_TYPE_MAP (j_type j) = None \<Longrightarrow>
   new_child_frame ops lmap j =
     (if lmap (j_parent j) = None then Inl (KeyError ParentLink (j_parent j))
      else if lmap (j_child j) = None then Inl (KeyError ChildLink (j_child j))
      else Inl (KeyError JointType (j_type j)))"
  by (auto simp: new_child_frame_def Let_def split: option.splits)

text \<open>
  Claim C8. When a joint expanded by the build names a child link that the link map
  does not hold, the build ends with a \<^verbatim>\<open>KeyError\<close>, for this and every larger amount of
  fuel, so it returns no chain, partial or not. When the parent of that joint is in the
  link map, the error is the one of the child lookup of line 48, with the child's name.
\<close>

theorem missing_child_link_fails:
  assumes "j \<in> set (build_expanded n ops robot)"
    and "model_link_map robot (j_child j) = None"
  shows "(\<exists>site key. \<forall>m\<ge>n. build_chain_from_sdf m ops robot = Some (Inl (KeyError site key)))
       \<and> (model_link_map robot (j_parent j) \<noteq> None \<longrightarrow>
            build_chain_from_sdf n ops robot = Some (Inl (KeyError ChildLink (j_child j))))"
proof -
  let ?e = "if model_link_map robot (j_parent j) = None
            then KeyError ParentLink (j_parent j) else KeyError ChildLink (j_child j)"
  have "new_child_frame ops (model_link_map robot) j = Inl ?e"
    using new_child_frame_no_child [where lmap = "model_link_map robot" and j = j and ops = ops] assms(2) by simp
  from build_expanded_error [OF assms(1) this]
  have run: "build_chain_from_sdf n ops robot = Some (Inl ?e)" .
  then have "\<forall>m\<ge>n. build_chain_from_sdf m ops robot = Some (Inl ?e)"
    using build_fuel_mono by blast
  with run show ?thesis by (auto split: if_splits)
qed


theorem missing_child_link_fails_witness:
  "build_chain_from_sdf (Suc (Suc (Suc 0))) term_ops robot_no_C
     = Some (Inl (KeyError ChildLink ''C''))"
proof -
  let ?j = "mk_joint ''J2'' ''fixed'' ''B'' ''C''"
  have a: "?j \<in> set (build_expanded (Suc (Suc (Suc 0))) term_ops robot_no_C)"
    by (simp add: robot_no_C_trace chain_ABC_def)
  have b: "model_link_map robot_no_C (j_child ?j) = None"
    by (simp add: robot_no_C_def mk_joint_def)
  have c: "model_link_map robot_no_C (j_parent ?j) \<noteq> None"
    by (simp add: robot_no_C_def mk_joint_def)
  from missing_child_link_fails [OF a b] c show ?thesis
    by (simp add: mk_joint_def)
qed

text \<open>
  Claim C7. When a joint expanded by the build has a type tag outside the table, the
  build ends with a \<^verbatim>\<open>KeyError\<close>, for this and every larger amount of fuel; when both
  links of that joint are in the link map it is the error of the type lookup of line 52,
  with the tag. When the build returns a chain, the joint types of the frames below the
  root are, in order, the table entries of the type tags of the expanded joints, and
  every such tag is in the table. The table maps each of \<open>revolute\<close>, \<open>prismatic\<close> and
  \<open>fixed\<close> to itself and holds nothing else.
\<close>

theorem unknown_joint_type_fails:
  "(\<forall>j\<in>set (build_expanded n ops robot). JOINT_TYPE_MAP (j_type j) = None \<longrightarrow>
      (\<exists>site key. \<forall>m\<ge>n. build_chain_from_sdf m ops robot = Some (Inl (KeyError site key)))
      \<and> (model_link_map robot (j_parent j) \<noteq> None \<and> model_link_map robot (j_child j) \<noteq> None
           \<longrightarrow> build_chain_from_sdf n ops robot = Some (Inl (KeyError JointType (j_type j)))))
   \<and> (\<forall>c. build_chain_from_sdf n ops robot = Some (Inr c) \<longrightarrow>
         map (\<lambda>f. joint_type (joint f)) (descendants (chain_root c))
           = map (\<lambda>j. JOINT_TYPE_MAP (j_type j)) (build_expanded n ops robot)
         \<and> (\<forall>j\<in>set (build_expanded n ops robot).
               j_type j \<in> {''revolute'', ''prismatic'', ''fixed''}))
   \<and> (\<forall>t. JOINT_TYPE_MAP t =
           (if t \<in> {''revolute'', ''prismatic'', ''fixed''} then Some t else None))"
proof (intro conjI ballI allI impI)
  fix j
  assume j: "j \<in> set (build_expanded n ops robot)" and t: "JOINT_TYPE_MAP (j_type j) = None"
  let ?lmap = "model_link_map robot"
  let ?e = "if ?lmap (j_parent j) = None then KeyError ParentLink (j_parent j)
            else if ?lmap (j_child j) = None then KeyError ChildLink (j_child j)
            else KeyError JointType (j_type j)"
  have "new_child_frame ops ?lmap j = Inl ?e"
    using new_child_frame_no_type [where lmap = ?lmap and j = j and ops = ops] t by simp
  from build_expanded_error [OF j this]
  have run: "build_chain_from_sdf n ops robot = Some (Inl ?e)" .
  then have "\<forall>m\<ge>n. build_chain_from_sdf m ops robot = Some (Inl ?e)"
    using build_fuel_mono by blast
  then show "\<exists>site key. \<forall>m\<ge>n. build_chain_from_sdf m ops robot = Some (Inl (KeyError site key))"
    by (auto split: if_splits)
  show "build_chain_from_sdf n ops robot = Some (Inl (KeyError JointType (j_type j)))"
    if "?lmap (j_parent j) \<noteq> None \<and> ?lmap (j_child j) \<noteq> None"
    using run that by simp
next
  fix t
  show "JOINT_TYPE_MAP t = (if t \<in> {''revolute'', ''prismatic'', ''fixed''} then Some t else None)"
    by (simp add: JOINT_TYPE_MAP_def)
next
  fix c
  assume ok: "build_chain_from_sdf n ops robot = Some (Inr c)"
  let ?lmap = "model_link_map robot" and ?js = "model_joints robot"
  from ok obtain rl chs where rl: "find_root_link ?lmap ?js = Inr rl"
    and chs: "recurse_loop n ops (new_root_frame ops rl) ?lmap ?js ?js = Some (Inr chs)"
    and c: "c = Chain (Frame (l_name rl @ ''_frame'')
                  (joint (new_root_frame ops rl)) (link (new_root_frame ops rl)) chs)"
    unfolding build_Inr_iff by blast
  have tr: "build_expanded n ops robot = expanded n ops (new_root_frame ops rl) ?lmap ?js ?js"
    using rl by (simp add: build_expanded_def Let_def)
  have d: "descendants (chain_root c) = concat (map frames_of chs)"
    by (simp add: c descendants_def)
  from output_follows_trace [OF chs]
  have m: "map strip_children (concat (map frames_of chs))
            = map (\<lambda>j. projr (new_child_frame ops ?lmap j)) (build_expanded n ops robot)"
    and all: "\<forall>j\<in>set (build_expanded n ops robot). \<exists>cf. new_child_frame ops ?lmap j = Inr cf"
    unfolding tr by blast+
  have ty: "joint_type (joint (projr (new_child_frame ops ?lmap j))) = JOINT_TYPE_MAP (j_type j)
          \<and> JOINT_TYPE_MAP (j_type j) \<noteq> None"
    if "j \<in> set (build_expanded n ops robot)" for j
  proof -
    from all that obtain cf where cf: "new_child_frame ops ?lmap j = Inr cf" by blast
    from new_child_frame_Inr [OF cf] show ?thesis
      by (metis cf sum.sel(2) frame.sel(2) Joint.select_convs(3) option.distinct(1))
  qed
  have "map (\<lambda>f. joint_type (joint f)) (concat (map frames_of chs))
        = map (\<lambda>f. joint_type (joint f)) (map strip_children (concat (map frames_of chs)))"
    by (simp add: strip_children_def)
  also have "\<dots> = map (\<lambda>j. JOINT_TYPE_MAP (j_type j)) (build_expanded n ops robot)"
    unfolding m using ty by simp
  finally show "map (\<lambda>f. joint_type (joint f)) (descendants (chain_root c))
           = map (\<lambda>j. JOINT_TYPE_MAP (j_type j)) (build_expanded n ops robot)"
    unfolding d .
  show "j_type j \<in> {''revolute'', ''prismatic'', ''fixed''}"
    if "j \<in> set (build_expanded n ops robot)" for j
    using ty [OF that] by (auto simp: JOINT_TYPE_MAP_def split: if_splits)
qed

theorem unknown_joint_type_fails_witness:
  "build_chain_from_sdf (Suc (Suc (Suc 0))) term_ops robot_bad_type
     = Some (Inl (KeyError JointType ''floating''))
   \<and> (\<exists>c. build_chain_from_sdf (Suc (Suc (Suc 0))) term_ops robot_ABC = Some (Inr c)
         \<and> map (\<lambda>f. joint_type (joint f)) (descendants (chain_root c))
             = [Some ''revolute'', Some ''fixed''])"
proof -
  let ?j = "mk_joint ''J2'' ''floating'' ''B'' ''C''"
  let ?n = "Suc (Suc (Suc 0))"
  have a: "?j \<in> set (build_expanded ?n term_ops robot_bad_type)"
    unfolding robot_bad_type_trace by (simp add: robot_bad_type_def)
  have b: "JOINT_TYPE_MAP (j_type ?j) = None"
    by (simp add: JOINT_TYPE_MAP_def mk_joint_def)
  have c: "model_link_map robot_bad_type (j_parent ?j) \<noteq> None
         \<and> model_link_map robot_bad_type (j_child ?j) \<noteq> None"
    by (simp add: robot_bad_type_def links_ABC_def mk_joint_def)
  from unknown_joint_type_fails [of ?n term_ops robot_bad_type] a b c
  have "build_chain_from_sdf ?n term_ops robot_bad_type = Some (Inl (KeyError JointType (j_type ?j)))"
    by blast
  then have first: "build_chain_from_sdf ?n term_ops robot_bad_type
       = Some (Inl (KeyError JointType ''floating''))"
    by (simp add: mk_joint_def)
  from robot_ABC_run obtain c where run: "build_chain_from_sdf ?n term_ops robot_ABC = Some (Inr c)"
    by blast
  from unknown_joint_type_fails [of ?n term_ops robot_ABC] run
  have "map (\<lambda>f. joint_type (joint f)) (descendants (chain_root c))
         = map (\<lambda>j. JOINT_TYPE_MAP (j_type j)) (build_expanded ?n term_ops robot_ABC)"
    by blast
  then have "map (\<lambda>f. joint_type (joint f)) (descendants (chain_root c))
         = [Some ''revolute'', Some ''fixed'']"
    by (simp add: robot_ABC_trace chain_ABC_def mk_joint_def JOINT_TYPE_MAP_def)
  with run have "\<exists>c. build_chain_from_sdf ?n term_ops robot_ABC = Some (Inr c)
         \<and> map (\<lambda>f. joint_type (joint f)) (descendants (chain_root c))
             = [Some ''revolute'', Some ''fixed'']"
    by (intro exI [of _ c] conjI)
  with first show ?thesis by (rule conjI)
qed

section \<open>The parent link of an expanded joint\<close>

lemma keyed_parent:
  "link_map_keyed lmap js \<Longrightarrow> j \<in> set js \<Longrightarrow> lmap (j_parent j) = Some l \<Longrightarrow>
   l_name l = j_parent j"
  by (auto simp: link_map_keyed_def keyed_by_name_def)

lemma keyed_child:
  "link_map_keyed lmap js \<Longrightarrow> j \<in> set js \<Longrightarrow> lmap (j_child j) = Some l \<Longrightarrow>
   l_name l = j_child j"
  by (auto simp: link_map_keyed_def keyed_by_name_def)

lemma expanded_parent_present:
  assumes keyed: "link_map_keyed lmap joints"
  shows "lmap (link_name (link rf)) \<noteq> None \<Longrightarrow> set js \<subseteq> set joints \<Longrightarrow>
         j \<in> set (expanded n ops rf lmap joints js) \<Longrightarrow> lmap (j_parent j) \<noteq> None"
proof (induction n rf js rule: recurse_induct [where ops = ops and lmap = lmap and joints = joints])
  case (hit n rf j' js)
  have sub: "set js \<subseteq> set joints" and j': "j' \<in> set joints" using hit.prems(2) by auto
  show ?case
  proof (cases "new_child_frame ops lmap j'")
    case (Inl e)
    with hit.prems hit.hyps show ?thesis by simp
  next
    case (Inr cf)
    from new_child_frame_Inr [OF Inr] obtain link_c where
      c: "lmap (j_child j') = Some link_c" and n: "link_name (link cf) = l_name link_c"
      by (metis frame.sel(3) Link.select_convs(1))
    from keyed_child [OF keyed j' c] have "l_name link_c = j_child j'" .
    with c n have cf: "lmap (link_name (link cf)) \<noteq> None" by simp
    from hit.prems(3) have "j = j' \<or> j \<in> set (expanded n ops cf lmap joints joints)
        \<or> j \<in> set (expanded (Suc n) ops rf lmap joints js)"
      unfolding expanded_hit_Inr [OF hit.hyps Inr] by (auto split: if_splits)
    then show ?thesis
      using hit.IH(1) [OF Inr cf] hit.IH(2) [OF hit.prems(1) sub] hit.hyps hit.prems(1)
      by auto
  qed
qed auto

text \<open>
  Claim C10. Let the link map hold every link under its own name. Then every joint
  expanded by the build has its parent in the link map: the parent is the link name of
  the current frame, and that name was read from a record found in the map, by root
  discovery for the root frame and as the child of an earlier joint below it. So the
  build never ends with the \<^verbatim>\<open>KeyError\<close> of the parent lookup of line 47: a lookup that
  fails inside the recursion is the one of a child link or of a joint type.
\<close>

theorem parent_lookup_never_fails:
  assumes "link_map_keyed (model_link_map robot) (model_joints robot)"
  shows "(\<forall>j\<in>set (build_expanded n ops robot). model_link_map robot (j_parent j) \<noteq> None)
       \<and> (\<forall>site key. build_chain_from_sdf n ops robot = Some (Inl (KeyError site key)) \<longrightarrow>
             site \<noteq> ParentLink)"
proof -
  let ?lmap = "model_link_map robot" and ?js = "model_joints robot"
  have present: "?lmap (j_parent j) \<noteq> None" if j: "j \<in> set (build_expanded n ops robot)" for j
  proof (cases "find_root_link ?lmap ?js")
    case (Inl e)
    with j show ?thesis by (simp add: build_expanded_def)
  next
    case (Inr rl)
    from find_root_link_Inr [OF Inr] obtain i where
      i: "i < length ?js" and l: "?lmap (j_parent (?js ! i)) = Some rl"
      by blast
    from keyed_parent [OF assms nth_mem [OF i] l] have "l_name rl = j_parent (?js ! i)" .
    with l have root: "?lmap (link_name (link (new_root_frame ops rl))) \<noteq> None"
      by (simp add: new_root_frame_def)
    from j Inr have "j \<in> set (expanded n ops (new_root_frame ops rl) ?lmap ?js ?js)"
      by (simp add: build_expanded_def Let_def)
    from expanded_parent_present [OF assms root subset_refl this] show ?thesis .
  qed
  have "site \<noteq> ParentLink"
    if run: "build_chain_from_sdf n ops robot = Some (Inl (KeyError site key))" for site key
  proof
    assume site: "site = ParentLink"
    from run [unfolded build_Inl_iff] show False
    proof (elim disjE exE conjE)
      assume "find_root_link ?lmap ?js = Inl (KeyError site key)"
      from find_root_link_Inl [OF this] site show False by simp
    next
      fix rl
      assume rl: "find_root_link ?lmap ?js = Inr rl"
        and "recurse_loop n ops (new_root_frame ops rl) ?lmap ?js ?js = Some (Inl (KeyError site key))"
      from error_at_expanded [OF this(2)] obtain j where
        j: "j \<in> set (expanded n ops (new_root_frame ops rl) ?lmap ?js ?js)"
        and e: "new_child_frame ops ?lmap j = Inl (KeyError site key)"
        by blast
      from j rl have "j \<in> set (build_expanded n ops robot)"
        by (simp add: build_expanded_def Let_def)
      from present [OF this] new_child_frame_Inl [OF e] site show False by auto
    qed
  qed
  with present show ?thesis by blast
qed

theorem parent_lookup_never_fails_witness:
  "link_map_keyed (model_link_map robot_no_C) (model_joints robot_no_C)
   \<and> model_link_map robot_no_C
        (j_parent (build_expanded (Suc (Suc (Suc 0))) term_ops robot_no_C ! 1)) \<noteq> None
   \<and> build_chain_from_sdf (Suc (Suc (Suc 0))) term_ops robot_no_C
        = Some (Inl (KeyError ChildLink ''C''))
   \<and> ChildLink \<noteq> ParentLink"
proof -
  let ?n = "Suc (Suc (Suc 0))"
  have k: "link_map_keyed (model_link_map robot_no_C) (model_joints robot_no_C)"
    by (simp add: link_map_keyed_def keyed_by_name_def sample_defs)
  have m: "build_expanded ?n term_ops robot_no_C ! 1 \<in> set (build_expanded ?n term_ops robot_no_C)"
    by (simp add: robot_no_C_trace chain_ABC_def)
  from parent_lookup_never_fails [OF k, of ?n term_ops] m robot_no_C_run k
  show ?thesis by blast
qed

section \<open>The offset of a joint\<close>

lemma offsets_of_run:
  assumes "build_chain_recurse n ops rf lmap joints = Some (Inr fs)"
  shows "length (concat (map frames_of fs)) = length (expanded n ops rf lmap joints joints)
       \<and> (\<forall>i<length (expanded n ops rf lmap joints joints).
            \<exists>link_p link_c.
              lmap (j_parent (expanded n ops rf lmap joints joints ! i)) = Some link_p
            \<and> lmap (j_child (expanded n ops rf lmap joints joints ! i)) = Some link_c
            \<and> frame_name (concat (map frames_of fs) ! i)
                = j_child (expanded n ops rf lmap joints joints ! i) @ ''_frame''
            \<and> offset (joint (concat (map frames_of fs) ! i))
                = tf_mul ops (tf_inverse ops (convert_transform ops (l_pose link_p)))
                    (convert_transform ops (l_pose link_c)))"
proof -
  let ?tr = "expanded n ops rf lmap joints joints" and ?fr = "concat (map frames_of fs)"
  from assms have run: "recurse_loop n ops rf lmap joints joints = Some (Inr fs)"
    by (simp add: build_chain_recurse_def)
  from output_follows_trace [OF run]
  have m: "map strip_children ?fr = map (\<lambda>j. projr (new_child_frame ops lmap j)) ?tr"
    and all: "\<forall>j\<in>set ?tr. \<exists>cf. new_child_frame ops lmap j = Inr cf"
    by blast+
  from m have len: "length ?fr = length ?tr"
    by (metis length_map)
  have step: "\<exists>link_p link_c.
              lmap (j_parent (?tr ! i)) = Some link_p
            \<and> lmap (j_child (?tr ! i)) = Some link_c
            \<and> frame_name (?fr ! i) = j_child (?tr ! i) @ ''_frame''
            \<and> offset (joint (?fr ! i))
                = tf_mul ops (tf_inverse ops (convert_transform ops (l_pose link_p)))
                    (convert_transform ops (l_pose link_c))"
    if i: "i < length ?tr" for i
  proof -
    from i all obtain cf where cf: "new_child_frame ops lmap (?tr ! i) = Inr cf"
      by (meson nth_mem)
    from m i len have "strip_children (?fr ! i) = projr (new_child_frame ops lmap (?tr ! i))"
      by (metis nth_map)
    with cf have s: "strip_children (?fr ! i) = cf" by simp
    then have nm: "frame_name (?fr ! i) = frame_name cf" and jt: "joint (?fr ! i) = joint cf"
      by (auto simp: strip_children_def)
    from new_child_frame_Inr [OF cf] show ?thesis
      unfolding nm jt by (metis frame.sel(1) frame.sel(2) Joint.select_convs(2))
  qed
  from len step show ?thesis by blast
qed

text \<open>
  Claim C2. Whenever lines 46 to 56 build the child frame of a joint, the offset of its
  joint is \<^verbatim>\<open>convert(parent.pose).inverse() * convert(child.pose)\<close>, for the records the
  link map holds for the parent and the child of the joint. When the recursion returns,
  the frames it built are, in depth-first order, the child frames of the expanded joints,
  one for each, so every one of them is named after the child link of its joint and
  carries that offset. A null pose is converted to the identity, the transform
  constructed without arguments.
\<close>

theorem joint_offset_relative:
  "(\<forall>j cf. new_child_frame ops lmap j = Inr cf \<longrightarrow>
      (\<exists>link_p link_c. lmap (j_parent j) = Some link_p \<and> lmap (j_child j) = Some link_c
         \<and> offset (joint cf)
             = tf_mul ops (tf_inverse ops (convert_transform ops (l_pose link_p)))
                 (convert_transform ops (l_pose link_c))))
   \<and> (\<forall>fs. build_chain_recurse n ops rf lmap joints = Some (Inr fs) \<longrightarrow>
         length (concat (map frames_of fs)) = length (expanded n ops rf lmap joints joints)
       \<and> (\<forall>i<length (expanded n ops rf lmap joints joints).
            \<exists>link_p link_c.
              lmap (j_parent (expanded n ops rf lmap joints joints ! i)) = Some link_p
            \<and> lmap (j_child (expanded n ops rf lmap joints joints ! i)) = Some link_c
            \<and> frame_name (concat (map frames_of fs) ! i)
                = j_child (expanded n ops rf lmap joints joints ! i) @ ''_frame''
            \<and> offset (joint (concat (map frames_of fs) ! i))
                = tf_mul ops (tf_inverse ops (convert_transform ops (l_pose link_p)))
                    (convert_transform ops (l_pose link_c))))
   \<and> convert_transform ops None = tf_identity ops"
proof (intro conjI)
  show "\<forall>j cf. new_child_frame ops lmap j = Inr cf \<longrightarrow>
      (\<exists>link_p link_c. lmap (j_parent j) = Some link_p \<and> lmap (j_child j) = Some link_c
         \<and> offset (joint cf)
             = tf_mul ops (tf_inverse ops (convert_transform ops (l_pose link_p)))
                 (convert_transform ops (l_pose link_c)))"
  proof (intro allI impI)
    fix j cf
    assume cf: "new_child_frame ops lmap j = Inr cf"
    from new_child_frame_Inr [OF cf]
    show "\<exists>link_p link_c. lmap (j_parent j) = Some link_p \<and> lmap (j_child j) = Some link_c
         \<and> offset (joint cf)
             = tf_mul ops (tf_inverse ops (convert_transform ops (l_pose link_p)))
                 (convert_transform ops (l_pose link_c))"
      by (metis frame.sel(2) Joint.select_convs(2))
  qed
  show "\<forall>fs. build_chain_recurse n ops rf lmap joints = Some (Inr fs) \<longrightarrow>
         length (concat (map frames_of fs)) = length (expanded n ops rf lmap joints joints)
       \<and> (\<forall>i<length (expanded n ops rf lmap joints joints).
            \<exists>link_p link_c.
              lmap (j_parent (expanded n ops rf lmap joints joints ! i)) = Some link_p
            \<and> lmap (j_child (expanded n ops rf lmap joints joints ! i)) = Some link_c
            \<and> frame_name (concat (map frames_of fs) ! i)
                = j_child (expanded n ops rf lmap joints joints ! i) @ ''_frame''
            \<and> offset (joint (concat (map frames_of fs) ! i))
                = tf_mul ops (tf_inverse ops (convert_transform ops (l_pose link_p)))
                    (convert_transform ops (l_pose link_c)))"
    by (intro allI impI) (rule offsets_of_run)
  show "convert_transform ops None = tf_identity ops"
    by (simp add: convert_transform_def tf_identity_def)
qed

theorem joint_offset_relative_witness:
  "\<exists>fs. build_chain_recurse (Suc (Suc 0)) term_ops
          (new_root_frame term_ops \<lparr>l_name = ''A'', l_pose = Some [1, 0, 0, 0, 0, 0], l_visuals = []\<rparr>)
          links_posed [mk_joint ''J1'' ''revolute'' ''A'' ''B''] = Some (Inr fs)
      \<and> offset (joint (concat (map frames_of fs) ! 0))
          = TfMul (TfInverse (TfNew (Some [0, 0, 0]) (Some [1, 0, 0]))) (TfNew None None)"
proof -
  let ?rf = "new_root_frame term_ops \<lparr>l_name = ''A'', l_pose = Some [1, 0, 0, 0, 0, 0], l_visuals = []\<rparr>"
  let ?js = "[mk_joint ''J1'' ''revolute'' ''A'' ''B'']"
  from posed_run obtain fs where
    run: "build_chain_recurse (Suc (Suc 0)) term_ops ?rf links_posed ?js = Some (Inr fs)"
    by blast
  from joint_offset_relative [of term_ops links_posed "Suc (Suc 0)" ?rf ?js] run
  have "\<forall>i<length (expanded (Suc (Suc 0)) term_ops ?rf links_posed ?js ?js).
            \<exists>link_p link_c.
              links_posed (j_parent (expanded (Suc (Suc 0)) term_ops ?rf links_posed ?js ?js ! i)) = Some link_p
            \<and> links_posed (j_child (expanded (Suc (Suc 0)) term_ops ?rf links_posed ?js ?js ! i)) = Some link_c
            \<and> frame_name (concat (map frames_of fs) ! i)
                = j_child (expanded (Suc (Suc 0)) term_ops ?rf links_posed ?js ?js ! i) @ ''_frame''
            \<and> offset (joint (concat (map frames_of fs) ! i))
                = tf_mul term_ops (tf_inverse term_ops (convert_transform term_ops (l_pose link_p)))
                    (convert_transform term_ops (l_pose link_c))"
    by blast
  then have "offset (joint (concat (map frames_of fs) ! 0))
          = TfMul (TfInverse (TfNew (Some [0, 0, 0]) (Some [1, 0, 0]))) (TfNew None None)"
    unfolding posed_trace
    by (auto simp: links_posed_def mk_joint_def term_ops_def convert_transform_def)
  with run show ?thesis by blast
qed

section \<open>Termination of the recursion\<close>










section \<open>Builds of single-rooted trees\<close>






















end
